theory Spec2Isabelle
  imports Complex_Main "HOL-Library.Char_ord" "HOL-Library.List_Lexorder"
begin

section \<open>Text primitives\<close>

text \<open>
  A line of recognised text is a \<^typ>\<open>string\<close>. Each \<^typ>\<open>char\<close> stands for one code
  point of the Python \<open>str\<close>: the values below 128 are ASCII, the value 128 stands for
  the Euro sign U+20AC, and the remaining values stand for further caseless symbols
  (neither letter, digit, underscore nor white space), so \<open>len\<close> is \<^const>\<open>length\<close>.
\<close>

definition euro_sign :: char where
  "euro_sign = CHR 0x80"

definition is_digit :: "char \<Rightarrow> bool" where
  "is_digit c = (c \<in> set ''0123456789'')"

definition is_lower :: "char \<Rightarrow> bool" where
  "is_lower c = (c \<in> set ''abcdefghijklmnopqrstuvwxyz'')"

definition is_upper :: "char \<Rightarrow> bool" where
  "is_upper c = (c \<in> set ''ABCDEFGHIJKLMNOPQRSTUVWXYZ'')"

definition is_alpha :: "char \<Rightarrow> bool" where
  "is_alpha c = (is_lower c \<or> is_upper c)"

text \<open>\<open>str.isspace\<close> and the class \<open>\s\<close>: TAB, LF, VT, FF, CR, FS, GS, RS, US and the space.\<close>

definition is_space :: "char \<Rightarrow> bool" where
  "is_space c = (c \<in> {CHR 0x09, CHR 0x0A, CHR 0x0B, CHR 0x0C, CHR 0x0D,
                       CHR 0x1C, CHR 0x1D, CHR 0x1E, CHR 0x1F, CHR 0x20})"

text \<open>The class \<open>\w\<close>.\<close>

definition is_word :: "char \<Rightarrow> bool" where
  "is_word c = (is_alpha c \<or> is_digit c \<or> c = CHR ''_'')"

definition upper_char :: "char \<Rightarrow> char" where
  "upper_char c =
     (case map_of (zip ''abcdefghijklmnopqrstuvwxyz'' ''ABCDEFGHIJKLMNOPQRSTUVWXYZ'') c of
        Some u \<Rightarrow> u | None \<Rightarrow> c)"

definition lower_char :: "char \<Rightarrow> char" where
  "lower_char c =
     (case map_of (zip ''ABCDEFGHIJKLMNOPQRSTUVWXYZ'' ''abcdefghijklmnopqrstuvwxyz'') c of
        Some u \<Rightarrow> u | None \<Rightarrow> c)"

definition upper :: "string \<Rightarrow> string" where
  "upper s = map upper_char s"

definition lower :: "string \<Rightarrow> string" where
  "lower s = map lower_char s"

text \<open>\<open>str.strip()\<close>: leading and trailing white space removed.\<close>

definition lstrip :: "string \<Rightarrow> string" where
  "lstrip s = dropWhile is_space s"

definition strip :: "string \<Rightarrow> string" where
  "strip s = rev (lstrip (rev (lstrip s)))"

fun starts_with :: "string \<Rightarrow> string \<Rightarrow> bool" where
  "starts_with [] s = True"
| "starts_with (p # ps) [] = False"
| "starts_with (p # ps) (c # cs) = (p = c \<and> starts_with ps cs)"

text \<open>\<open>sub in s\<close> on strings.\<close>

fun contains :: "string \<Rightarrow> string \<Rightarrow> bool" where
  "contains sub [] = (sub = [])"
| "contains sub (c # cs) = (starts_with sub (c # cs) \<or> contains sub cs)"

text \<open>\<open>any(k in txt for k in kws)\<close>.\<close>

fun any_in :: "string list \<Rightarrow> string \<Rightarrow> bool" where
  "any_in [] txt = False"
| "any_in (k # ks) txt = (contains k txt \<or> any_in ks txt)"

section \<open>Language detection\<close>

datatype lang = IT | EN

definition it_keywords :: "string list" where
  "it_keywords = [''TOTALE'', ''SCONTRINO'', ''P.IVA'', ''EURO'', ''IMPORTO'', ''CASSA'',
                  ''SERVIZIO'', ''COPERTO'', ''VIA '', ''PIAZZA '']"

definition en_keywords :: "string list" where
  "en_keywords = [''TOTAL'', ''RECEIPT'', ''TAX'', ''TIPS'', ''GRATUITY'', ''CHANGE'', ''CASH'',
                  ''SUBTOTAL'', ''AVE'', ''BLVD'', ''STREET'']"

text \<open>The inner loops: one point for every keyword of the list found in the line.\<close>

fun kw_hits :: "string list \<Rightarrow> string \<Rightarrow> nat" where
  "kw_hits [] u = 0"
| "kw_hits (kw # kws) u = (if contains kw u then 1 else 0) + kw_hits kws u"

text \<open>The outer loop, carrying both scores.\<close>

fun lang_scores :: "string list \<Rightarrow> nat \<times> nat \<Rightarrow> nat \<times> nat" where
  "lang_scores [] sc = sc"
| "lang_scores (line # rest) (it_score, en_score) =
     (let u = upper (strip line) in
      lang_scores rest (it_score + kw_hits it_keywords u, en_score + kw_hits en_keywords u))"

definition detect_language :: "string list \<Rightarrow> lang" where
  "detect_language text_lines =
     (case lang_scores text_lines (0, 0) of
        (it_score, en_score) \<Rightarrow> if en_score > it_score then EN else IT)"

section \<open>Vendor extraction\<close>

definition suffixes :: "lang \<Rightarrow> string list" where
  "suffixes l = (case l of
      IT \<Rightarrow> [''S.P.A'', ''S.R.L'', ''SRL'', ''SPA'', ''S.N.C'', ''SNC'']
    | EN \<Rightarrow> [''INC'', ''LTD'', ''LLC'', ''CORP'', ''INC.'', ''LLC.''])"

definition skip_keywords :: "lang \<Rightarrow> string list" where
  "skip_keywords l = (case l of
      IT \<Rightarrow> [''DOCUMENTO'', ''COMMERCIALE'', ''SCONTRINO'', ''CLIENTE'', ''COPIA'', ''RT'',
             ''CASSA'', ''PAGAMENTO'']
    | EN \<Rightarrow> [''RECEIPT'', ''GUEST'', ''CHECK'', ''TABLE'', ''SERVER'', ''ORDER'', ''WELCOME'',
             ''COPY'', ''MERCHANT''])"

text \<open>
  The first loop, over \<open>text_lines[:8]\<close>: \<open>continue\<close> on a short line, \<open>break\<close> with the
  vendor at the first line holding a suffix. \<open>None\<close> is \<open>vendor_found = False\<close>.
\<close>

fun vendor_suffix_loop :: "lang \<Rightarrow> string list \<Rightarrow> string option" where
  "vendor_suffix_loop l [] = None"
| "vendor_suffix_loop l (line # rest) =
     (let clean_line = strip line in
      if length clean_line < 3 then vendor_suffix_loop l rest
      else if any_in (suffixes l) (upper clean_line) then Some clean_line
      else vendor_suffix_loop l rest)"

text \<open>The fallback loop over all lines; \<open>None\<close> leaves the field at its initial "null".\<close>

fun vendor_fallback_loop :: "lang \<Rightarrow> string list \<Rightarrow> string option" where
  "vendor_fallback_loop l [] = None"
| "vendor_fallback_loop l (line # rest) =
     (let clean_line = strip line; u = upper clean_line in
      if length clean_line < 3 \<or> \<not> list_ex is_alpha clean_line then vendor_fallback_loop l rest
      else if any_in (skip_keywords l) u then vendor_fallback_loop l rest
      else Some clean_line)"

definition extract_vendor :: "lang \<Rightarrow> string list \<Rightarrow> string" where
  "extract_vendor l text_lines =
     (case vendor_suffix_loop l (take 8 text_lines) of
        Some v \<Rightarrow> v
      | None \<Rightarrow> (case vendor_fallback_loop l text_lines of
                   Some v \<Rightarrow> v
                 | None \<Rightarrow> ''null''))"

section \<open>Currency detection\<close>

text \<open>The loop over the lines; the result is the variable \<open>currency\<close> after the loop.\<close>

fun currency_loop :: "string list \<Rightarrow> string" where
  "currency_loop [] = ''null''"
| "currency_loop (line # rest) =
     (if contains [euro_sign] line \<or> contains ''EUR'' (upper line) then ''EUR''
      else if contains ''$'' line \<or> contains ''USD'' (upper line) then ''USD''
      else currency_loop rest)"

definition detect_currency :: "lang \<Rightarrow> string list \<Rightarrow> string" where
  "detect_currency l text_lines =
     (let currency = currency_loop text_lines in
      if currency = ''null'' then (if l = IT then ''EUR'' else ''USD'') else currency)"

section \<open>Regular expressions\<close>

text \<open>
  The patterns of the program are values of \<open>regex\<close>, matched as Python's \<open>re\<close> matches
  them: by backtracking, the alternatives of a choice in the order written and a
  repetition greedy. \<open>rmatch\<close> returns every way the pattern matches from a position, in
  the order the backtracking search finds them, so the head of the list is the match
  that \<open>re\<close> reports. A position is the character before it (for \<open>\b\<close>), the text from
  it on, and the groups captured so far.
\<close>

datatype cclass =
    Digit | Space | Word | Lower | Upper
  | OneOf string
  | Union cclass cclass
  | Compl cclass

fun in_class :: "cclass \<Rightarrow> char \<Rightarrow> bool" where
  "in_class Digit c = is_digit c"
| "in_class Space c = is_space c"
| "in_class Word c = is_word c"
| "in_class Lower c = is_lower c"
| "in_class Upper c = is_upper c"
| "in_class (OneOf cs) c = (c \<in> set cs)"
| "in_class (Union a b) c = (in_class a c \<or> in_class b c)"
| "in_class (Compl a) c = (\<not> in_class a c)"

datatype regex =
    Eps
  | Cls cclass
  | Lit string
  | LitI string
  | Seq regex regex
  | Alt regex regex
  | Rep cclass nat "nat option"
  | Grp nat regex
  | WordB
  | NotAhead cclass
  | Eos

type_synonym caps = "(nat \<times> string) list"
type_synonym mstate = "char option \<times> string \<times> caps"

text \<open>
  \<open>Rep c mn mx\<close> is a greedy repetition of one character class, at least \<open>mn\<close> and
  (when \<open>mx\<close> is given) at most that many times: \<open>\d+\<close> is \<open>Rep Digit 1 None\<close>, \<open>\s*\<close> is
  \<open>Rep Space 0 None\<close>, \<open>\d{2,4}\<close> is \<open>Rep Digit 2 (Some 4)\<close>. The longest run comes first.
\<close>

fun rep :: "cclass \<Rightarrow> nat \<Rightarrow> nat option \<Rightarrow> char option \<Rightarrow> string \<Rightarrow> (char option \<times> string) list" where
  "rep c mn mx p [] = (if mn = 0 then [(p, [])] else [])"
| "rep c mn mx p (x # xs) =
     (if in_class c x \<and> mx \<noteq> Some 0
      then rep c (mn - 1) (map_option (\<lambda>k. k - 1) mx) (Some x) xs else [])
     @ (if mn = 0 then [(p, x # xs)] else [])"

text \<open>A literal; \<open>LitI\<close> is a literal under \<open>IGNORECASE\<close>.\<close>

fun lit :: "(char \<Rightarrow> char) \<Rightarrow> string \<Rightarrow> char option \<Rightarrow> string \<Rightarrow> (char option \<times> string) list" where
  "lit f [] p s = [(p, s)]"
| "lit f (a # as) p [] = []"
| "lit f (a # as) p (x # xs) = (if f a = f x then lit f as (Some x) xs else [])"

definition word_opt :: "char option \<Rightarrow> bool" where
  "word_opt p = (case p of None \<Rightarrow> False | Some c \<Rightarrow> is_word c)"

definition next_char :: "string \<Rightarrow> char option" where
  "next_char s = (case s of [] \<Rightarrow> None | x # xs \<Rightarrow> Some x)"

fun rmatch :: "regex \<Rightarrow> mstate \<Rightarrow> mstate list" where
  "rmatch Eps st = [st]"
| "rmatch (Cls c) (p, s, g) =
     (case s of [] \<Rightarrow> [] | x # xs \<Rightarrow> if in_class c x then [(Some x, xs, g)] else [])"
| "rmatch (Lit w) (p, s, g) = map (\<lambda>(p', s'). (p', s', g)) (lit (\<lambda>c. c) w p s)"
| "rmatch (LitI w) (p, s, g) = map (\<lambda>(p', s'). (p', s', g)) (lit lower_char w p s)"
| "rmatch (Seq a b) st = concat (map (rmatch b) (rmatch a st))"
| "rmatch (Alt a b) st = rmatch a st @ rmatch b st"
| "rmatch (Rep c mn mx) (p, s, g) = map (\<lambda>(p', s'). (p', s', g)) (rep c mn mx p s)"
| "rmatch (Grp n a) (p, s, g) =
     map (\<lambda>(p', s', g'). (p', s', (n, take (length s - length s') s) # g')) (rmatch a (p, s, g))"
| "rmatch WordB (p, s, g) = (if word_opt p \<noteq> word_opt (next_char s) then [(p, s, g)] else [])"
| "rmatch (NotAhead c) (p, s, g) =
     (case s of [] \<Rightarrow> [(p, s, g)] | x # xs \<Rightarrow> if in_class c x then [] else [(p, s, g)])"
| "rmatch Eos (p, s, g) = (if s = [] \<or> s = [CHR 0x0A] then [(p, s, g)] else [])"

text \<open>The text of group \<open>n\<close> of a match (the last capture of the group).\<close>

definition group :: "caps \<Rightarrow> nat \<Rightarrow> string" where
  "group g n = (case map_of g n of Some t \<Rightarrow> t | None \<Rightarrow> [])"

text \<open>
  \<open>re.search\<close>: the first match at the leftmost position that has one. The result is the
  whole match (\<open>group(0)\<close>) and the captured groups.
\<close>

fun search_from :: "regex \<Rightarrow> char option \<Rightarrow> string \<Rightarrow> (string \<times> caps) option" where
  "search_from r p [] =
     (case rmatch r (p, [], []) of [] \<Rightarrow> None | (p', s', g) # ms \<Rightarrow> Some ([], g))"
| "search_from r p (x # xs) =
     (case rmatch r (p, x # xs, []) of
        [] \<Rightarrow> search_from r (Some x) xs
      | (p', s', g) # ms \<Rightarrow> Some (take (length (x # xs) - length s') (x # xs), g))"

definition re_search :: "regex \<Rightarrow> string \<Rightarrow> (string \<times> caps) option" where
  "re_search r s = search_from r None s"

text \<open>\<open>re.match\<close>: a match at the start of the text only.\<close>

definition re_match :: "regex \<Rightarrow> string \<Rightarrow> (string \<times> caps) option" where
  "re_match r s =
     (case rmatch r (None, s, []) of
        [] \<Rightarrow> None
      | (p', s', g) # ms \<Rightarrow> Some (take (length s - length s') s, g))"

text \<open>
  \<open>re.findall\<close> and \<open>re.sub\<close> scan for successive matches that do not overlap. The counter
  is the number of characters still covered by the match found last. None of the
  patterns below matches the empty text; an empty match is recorded and the scan moves on
  by one character.
\<close>

fun findall_loop :: "regex \<Rightarrow> nat \<Rightarrow> char option \<Rightarrow> string \<Rightarrow> (string \<times> caps) list" where
  "findall_loop r (Suc k) p [] = []"
| "findall_loop r (Suc k) p (x # xs) = findall_loop r k (Some x) xs"
| "findall_loop r 0 p [] =
     (case rmatch r (p, [], []) of [] \<Rightarrow> [] | (p', s', g) # ms \<Rightarrow> [([], g)])"
| "findall_loop r 0 p (x # xs) =
     (case rmatch r (p, x # xs, []) of
        [] \<Rightarrow> findall_loop r 0 (Some x) xs
      | (p', s', g) # ms \<Rightarrow>
          (let n = length (x # xs) - length s' in
           (take n (x # xs), g) # findall_loop r (n - 1) (Some x) xs))"

definition re_finditer :: "regex \<Rightarrow> string \<Rightarrow> (string \<times> caps) list" where
  "re_finditer r s = findall_loop r 0 None s"

fun sub_loop :: "regex \<Rightarrow> (string \<times> caps \<Rightarrow> string) \<Rightarrow> nat \<Rightarrow> char option \<Rightarrow> string \<Rightarrow> string" where
  "sub_loop r f (Suc k) p [] = []"
| "sub_loop r f (Suc k) p (x # xs) = sub_loop r f k (Some x) xs"
| "sub_loop r f 0 p [] =
     (case rmatch r (p, [], []) of [] \<Rightarrow> [] | (p', s', g) # ms \<Rightarrow> f ([], g))"
| "sub_loop r f 0 p (x # xs) =
     (case rmatch r (p, x # xs, []) of
        [] \<Rightarrow> x # sub_loop r f 0 (Some x) xs
      | (p', s', g) # ms \<Rightarrow>
          (let n = length (x # xs) - length s' in
           if n = 0 then f ([], g) @ x # sub_loop r f 0 (Some x) xs
           else f (take n (x # xs), g) @ sub_loop r f (n - 1) (Some x) xs))"

definition re_sub :: "regex \<Rightarrow> (string \<times> caps \<Rightarrow> string) \<Rightarrow> string \<Rightarrow> string" where
  "re_sub r f s = sub_loop r f 0 None s"

text \<open>\<open>str.replace(old, new)\<close> for a non-empty \<open>old\<close>, by the same scan.\<close>

definition str_replace :: "string \<Rightarrow> string \<Rightarrow> string \<Rightarrow> string" where
  "str_replace old new s = re_sub (Lit old) (\<lambda>m. new) s"

section \<open>Floating-point amounts\<close>

text \<open>
  The amounts are Python floats: IEEE 754 binary64 values. Only values that are zero,
  positive or infinite arise (a number is read from digits and never negated). A finite
  float \<open>Fin e m\<close> is the value \<open>m * 2^e\<close> with a 53-bit significand: \<open>2^52 \<le> m < 2^53\<close> and
  \<open>-1074 \<le> e \<le> 971\<close> for a normal number, \<open>e = -1074\<close> and \<open>m < 2^52\<close> for zero and the
  subnormal numbers. On these representations the numeric order is the lexicographic
  order on exponent and significand. Every operation that rounds is rounded to the
  nearest representable value, ties to the even significand.
\<close>

datatype pyfloat = Fin int int | PInf

instantiation pyfloat :: linorder
begin

fun less_eq_pyfloat :: "pyfloat \<Rightarrow> pyfloat \<Rightarrow> bool" where
  "less_eq_pyfloat (Fin e1 m1) (Fin e2 m2) = (e1 < e2 \<or> e1 = e2 \<and> m1 \<le> m2)"
| "less_eq_pyfloat x PInf = True"
| "less_eq_pyfloat PInf (Fin e m) = False"

definition less_pyfloat :: "pyfloat \<Rightarrow> pyfloat \<Rightarrow> bool" where
  "less_pyfloat x y = (x \<le> y \<and> \<not> y \<le> (x::pyfloat))"

instance
proof
  fix x y z :: pyfloat
  show "(x < y) = (x \<le> y \<and> \<not> y \<le> x)" by (simp add: less_pyfloat_def)
  show "x \<le> x" by (cases x) simp_all
  show "x \<le> y \<Longrightarrow> y \<le> z \<Longrightarrow> x \<le> z" by (cases x; cases y; cases z) auto
  show "x \<le> y \<Longrightarrow> y \<le> x \<Longrightarrow> x = y" by (cases x; cases y) auto
  show "x \<le> y \<or> y \<le> x" by (cases x; cases y) auto
qed

end

text \<open>The quotient \<open>n / d\<close> of integers (\<open>n \<ge> 0\<close>, \<open>d > 0\<close>) rounded to an integer, ties to even.\<close>

definition round_half_even :: "int \<Rightarrow> int \<Rightarrow> int" where
  "round_half_even n d =
     (let f = n div d; r = n mod d in
      if 2 * r < d then f else if d < 2 * r then f + 1 else if even f then f else f + 1)"

text \<open>The number of binary digits of a natural number.\<close>

fun bitlen :: "int \<Rightarrow> int" where
  "bitlen n = (if n \<le> 0 then 0 else 1 + bitlen (n div 2))"

declare bitlen.simps [simp del]

text \<open>For \<open>0 < n\<close> and \<open>0 < d\<close>, the exponent \<open>k\<close> with \<open>2^k \<le> n / d < 2^(k+1)\<close>.\<close>

definition floor_log2 :: "int \<Rightarrow> int \<Rightarrow> int" where
  "floor_log2 n d =
     (if d \<le> n then bitlen (n div d) - 1 else - bitlen ((d + n - 1) div n - 1))"

text \<open>
  The real number \<open>n / d\<close> rounded to binary64: the significand keeps 53 bits, the
  exponent does not go below \<open>-1074\<close>, a significand rounded up to \<open>2^53\<close> moves to the
  next exponent, and a value of \<open>2^1024\<close> or more is \<open>inf\<close>.
\<close>

definition round_ratio :: "int \<Rightarrow> int \<Rightarrow> pyfloat" where
  "round_ratio n d =
     (if n = 0 then Fin (- 1074) 0
      else (let e = max (floor_log2 n d - 52) (- 1074);
                m = (if 0 \<le> e then round_half_even n (d * 2 ^ nat e)
                     else round_half_even (n * 2 ^ nat (- e)) d);
                e' = (if m = 2 ^ 53 then e + 1 else e);
                m' = (if m = 2 ^ 53 then 2 ^ 52 else m)
            in if 971 < e' then PInf else Fin e' m'))"

text \<open>The float of an integer literal, such as \<open>0\<close>, \<open>1900\<close> and \<open>2100\<close>.\<close>

definition float_of_int :: "int \<Rightarrow> pyfloat" where
  "float_of_int n = round_ratio n 1"

text \<open>Float addition \<open>a + b\<close>: the exact sum, rounded.\<close>

fun fadd :: "pyfloat \<Rightarrow> pyfloat \<Rightarrow> pyfloat" where
  "fadd (Fin e1 m1) (Fin e2 m2) =
     (let e = min e1 e2; n = m1 * 2 ^ nat (e1 - e) + m2 * 2 ^ nat (e2 - e) in
      if 0 \<le> e then round_ratio (n * 2 ^ nat e) 1 else round_ratio n (2 ^ nat (- e)))"
| "fadd x y = PInf"

text \<open>\<open>float.is_integer()\<close>.\<close>

fun is_integer :: "pyfloat \<Rightarrow> bool" where
  "is_integer (Fin e m) = (if 0 \<le> e then True else m mod 2 ^ nat (- e) = 0)"
| "is_integer PInf = False"

definition digit_char :: "int \<Rightarrow> char" where
  "digit_char n = ''0123456789'' ! nat (n mod 10)"

definition digit_val :: "char \<Rightarrow> int" where
  "digit_val c = (case map_of (zip ''0123456789'' [0, 1, 2, 3, 4, 5, 6, 7, 8, 9]) c of
                    Some v \<Rightarrow> v | None \<Rightarrow> 0)"

text \<open>\<open>str(n)\<close> for a natural number, and \<open>int(s)\<close> for a string of digits.\<close>

fun str_int :: "int \<Rightarrow> string" where
  "str_int n = (if n < 10 then [digit_char n] else str_int (n div 10) @ [digit_char n])"

declare str_int.simps [simp del]

definition int_of_digits :: "string \<Rightarrow> int" where
  "int_of_digits s = foldl (\<lambda>acc c. 10 * acc + digit_val c) 0 s"

text \<open>
  \<open>float(s)\<close> for \<open>s\<close> made of digits, a dot and digits, the only form the patterns hand
  to it: the decimal value, correctly rounded. \<open>None\<close> is the \<open>ValueError\<close> on another text.
\<close>

definition py_float :: "string \<Rightarrow> pyfloat option" where
  "py_float s =
     (let ip = takeWhile is_digit s; r = dropWhile is_digit s in
      case r of
        [] \<Rightarrow> None
      | d # fp \<Rightarrow>
          if d = CHR ''.'' \<and> ip \<noteq> [] \<and> fp \<noteq> [] \<and> list_all is_digit fp
          then Some (round_ratio (int_of_digits (ip @ fp)) (10 ^ length fp))
          else None)"

text \<open>The format \<open>f"{x:.2f}"\<close>: the exact value rounded to two decimals, ties to even.\<close>

fun format_2f :: "pyfloat \<Rightarrow> string" where
  "format_2f (Fin e m) =
     (let n = (if 0 \<le> e then m * 100 * 2 ^ nat e
               else round_half_even (m * 100) (2 ^ nat (- e))) in
      str_int (n div 100) @ ''.'' @ [digit_char (n div 10), digit_char n])"
| "format_2f PInf = ''inf''"

text \<open>
  \<open>max(xs)\<close> keeps the first of the largest items; \<open>None\<close> is the \<open>ValueError\<close> on an
  empty list.
\<close>

fun max_loop :: "pyfloat \<Rightarrow> pyfloat list \<Rightarrow> pyfloat" where
  "max_loop best [] = best"
| "max_loop best (x # xs) = max_loop (if best < x then x else best) xs"

fun py_max :: "pyfloat list \<Rightarrow> pyfloat option" where
  "py_max [] = None"
| "py_max (x # xs) = Some (max_loop x xs)"

section \<open>Total extraction\<close>

definition total_keywords :: "lang \<Rightarrow> string list" where
  "total_keywords l = (case l of
      IT \<Rightarrow> [''TOTALE'', ''IMPORTO'', ''PAGAMENTO'', ''CREDIT'', ''AMMOUNT'']
    | EN \<Rightarrow> [''TOTAL'', ''BALANCE'', ''AMOUNT'', ''DUE'', ''VISA'', ''CHARGE'', ''BILL'', ''TOTA''])"

definition cash_keywords :: "lang \<Rightarrow> string list" where
  "cash_keywords l = (case l of
      IT \<Rightarrow> [''CONTANTI'', ''CONTANTE'', ''CASH'', ''VERSAMENTO'']
    | EN \<Rightarrow> [''CASH'', ''TENDER'', ''PAID''])"

definition ignore_keywords :: "lang \<Rightarrow> string list" where
  "ignore_keywords l = (case l of
      IT \<Rightarrow> [''SUBTOTALE'', ''IMPONIBILE'', ''RESTO'']
    | EN \<Rightarrow> [''SUBTOTAL'', ''SUB TOTAL'', ''TAX'', ''CHANGE'', ''TIP'', ''GRATUITY''])"

text \<open>
  The class \<open>["\d\.,/]\<close> of the negative lookahead, and the two amount patterns:
  \<open>(\d+[\.,]\d{2})(?!["\d\.,/])\<close> for IT and \<open>[\$]?\s*(\d+\.\d{2})(?!["\d\.,/])\<close> for EN.
\<close>

definition num_stop :: cclass where
  "num_stop = Union Digit (OneOf [CHR 0x22, CHR ''.'', CHR '','', CHR ''/''])"

definition num_regex :: "lang \<Rightarrow> regex" where
  "num_regex l = (case l of
      IT \<Rightarrow> Seq (Grp 1 (Seq (Rep Digit 1 None) (Seq (Cls (OneOf ''.,'')) (Rep Digit 2 (Some 2)))))
                (NotAhead num_stop)
    | EN \<Rightarrow> Seq (Rep (OneOf ''$'') 0 (Some 1)) (Seq (Rep Space 0 None)
                (Seq (Grp 1 (Seq (Rep Digit 1 None) (Seq (Cls (OneOf ''.'')) (Rep Digit 2 (Some 2)))))
                     (NotAhead num_stop))))"

text \<open>
  The loop of \<open>get_floats\<close> over the matches: a text that is not a float is passed over
  (the \<open>except\<close>), and so is a whole number strictly between 1900 and 2100.
\<close>

fun floats_loop :: "string list \<Rightarrow> pyfloat list" where
  "floats_loop [] = []"
| "floats_loop (m # ms) =
     (case py_float (str_replace '','' ''.'' m) of
        None \<Rightarrow> floats_loop ms
      | Some val \<Rightarrow>
          if float_of_int 1900 < val \<and> val < float_of_int 2100 \<and> is_integer val
          then floats_loop ms
          else val # floats_loop ms)"

definition get_floats :: "lang \<Rightarrow> string \<Rightarrow> pyfloat list" where
  "get_floats l txt =
     (if contains ''%'' txt then []
      else floats_loop (map (\<lambda>(whole, g). group g 1) (re_finditer (num_regex l) txt)))"

text \<open>
  Strategy A, the loop over all lines. The state is the pair of the lists
  \<open>explicit_totals\<close> and \<open>cash_candidates\<close>; the line at index \<open>i\<close> is the head of the
  remaining lines, so \<open>text_lines[i + offset]\<close> for \<open>offset < 5\<close> within range are the
  first five of them.
\<close>

fun strategy_a :: "lang \<Rightarrow> string list \<Rightarrow> pyfloat list \<times> pyfloat list \<Rightarrow> pyfloat list \<times> pyfloat list" where
  "strategy_a l [] (explicit_totals, cash_candidates) = (explicit_totals, cash_candidates)"
| "strategy_a l (line # rest) (explicit_totals, cash_candidates) =
     (let u = upper (strip line); vals = get_floats l line in
      if any_in (cash_keywords l) u then
        strategy_a l rest
          (explicit_totals,
           cash_candidates @ vals @ (case rest of [] \<Rightarrow> [] | nxt # _ \<Rightarrow> get_floats l nxt))
      else if any_in (ignore_keywords l) u then
        strategy_a l rest (explicit_totals, cash_candidates)
      else if any_in (total_keywords l) u then
        strategy_a l rest
          (explicit_totals @ concat (map (get_floats l) (take 5 (line # rest))), cash_candidates)
      else strategy_a l rest (explicit_totals, cash_candidates))"

text \<open>
  Strategy B, the loop over \<open>text_lines[-15:]\<close>. The state is the pair of the lists
  \<open>blind_totals\<close> and \<open>cash_candidates\<close>.
\<close>

fun strategy_b :: "lang \<Rightarrow> string list \<Rightarrow> pyfloat list \<times> pyfloat list \<Rightarrow> pyfloat list \<times> pyfloat list" where
  "strategy_b l [] (blind_totals, cash_candidates) = (blind_totals, cash_candidates)"
| "strategy_b l (line # rest) (blind_totals, cash_candidates) =
     (let u = upper (strip line); vals = get_floats l line in
      if vals = [] then strategy_b l rest (blind_totals, cash_candidates)
      else if any_in (cash_keywords l) u then
        strategy_b l rest (blind_totals, cash_candidates @ vals)
      else if any_in (ignore_keywords l) u then
        strategy_b l rest (blind_totals, cash_candidates)
      else strategy_b l rest (blind_totals @ vals, cash_candidates))"

text \<open>The slice \<open>xs[-15:]\<close>.\<close>

definition last15 :: "'a list \<Rightarrow> 'a list" where
  "last15 xs = drop (length xs - 15) xs"

text \<open>The three pools after both loops.\<close>

definition explicit_totals :: "lang \<Rightarrow> string list \<Rightarrow> pyfloat list" where
  "explicit_totals l text_lines = fst (strategy_a l text_lines ([], []))"

definition blind_totals :: "lang \<Rightarrow> string list \<Rightarrow> pyfloat list" where
  "blind_totals l text_lines =
     fst (strategy_b l (last15 text_lines) ([], snd (strategy_a l text_lines ([], []))))"

definition cash_candidates :: "lang \<Rightarrow> string list \<Rightarrow> pyfloat list" where
  "cash_candidates l text_lines =
     snd (strategy_b l (last15 text_lines) ([], snd (strategy_a l text_lines ([], []))))"

text \<open>The float \<open>0.01\<close>.\<close>

definition cent :: pyfloat where
  "cent = round_ratio 1 100"

text \<open>The final logic: \<open>final_total_val\<close>, with \<open>None\<close> for Python's \<open>None\<close>.\<close>

definition resolve_total :: "pyfloat list \<Rightarrow> pyfloat list \<Rightarrow> pyfloat list \<Rightarrow> pyfloat option" where
  "resolve_total explicit blind cash =
     (let max_cash = (if cash \<noteq> [] then py_max cash else None) in
      if explicit \<noteq> [] then py_max explicit
      else if blind \<noteq> [] then
        (case max_cash of
           Some mc \<Rightarrow>
             (let valid_blind_candidates = filter (\<lambda>t. t \<le> fadd mc cent) blind in
              if valid_blind_candidates \<noteq> [] then py_max valid_blind_candidates
              else if blind \<noteq> [] then py_max blind
              else Some mc)
         | None \<Rightarrow> py_max blind)
      else (case max_cash of Some mc \<Rightarrow> Some mc | None \<Rightarrow> None))"

definition final_total_val :: "lang \<Rightarrow> string list \<Rightarrow> pyfloat option" where
  "final_total_val l text_lines =
     resolve_total (explicit_totals l text_lines) (blind_totals l text_lines)
       (cash_candidates l text_lines)"

text \<open>The field \<open>total\<close>: the value formatted when there is one above zero.\<close>

definition extract_total :: "lang \<Rightarrow> string list \<Rightarrow> string" where
  "extract_total l text_lines =
     (case final_total_val l text_lines of
        Some v \<Rightarrow> if float_of_int 0 < v then format_2f v else ''null''
      | None \<Rightarrow> ''null'')"

section \<open>Dates: \<open>strptime\<close> and \<open>strftime\<close>\<close>

datatype pydate = Date (year: int) (month: int) (day: int)

definition is_leap :: "int \<Rightarrow> bool" where
  "is_leap y = (y mod 4 = 0 \<and> (y mod 100 \<noteq> 0 \<or> y mod 400 = 0))"

definition days_in_month :: "int \<Rightarrow> int \<Rightarrow> int" where
  "days_in_month y m =
     (if m = 2 then (if is_leap y then 29 else 28)
      else if m \<in> {4, 6, 9, 11} then 30 else 31)"

text \<open>The dates the constructor \<open>datetime(year, month, day)\<close> accepts.\<close>

definition valid_date :: "pydate \<Rightarrow> bool" where
  "valid_date dt =
     (1 \<le> year dt \<and> year dt \<le> 9999 \<and> 1 \<le> month dt \<and> month dt \<le> 12 \<and>
      1 \<le> day dt \<and> day dt \<le> days_in_month (year dt) (month dt))"

definition two_digits :: "int \<Rightarrow> string" where
  "two_digits n = [digit_char (n div 10), digit_char n]"

text \<open>
  \<open>strftime("%d/%m/%Y")\<close>: day and month with two digits; the year as the C library
  prints \<open>%Y\<close> on Linux, without zero padding (a year below 1000 has fewer than four
  digits).
\<close>

definition strftime_dmy :: "pydate \<Rightarrow> string" where
  "strftime_dmy dt =
     two_digits (day dt) @ ''/'' @ two_digits (month dt) @ ''/'' @ str_int (year dt)"

text \<open>
  \<open>strptime\<close> turns the format into a pattern: a directive becomes a named group, a run
  of white space becomes \<open>\s+\<close>, and the pattern is matched under \<open>IGNORECASE\<close> at the
  start of the text. The first match the search finds must end at the end of the text
  (otherwise "unconverted data remains"). The groups are numbered here: \<open>d\<close> 1, \<open>m\<close> 2,
  \<open>Y\<close> 3, \<open>y\<close> 4, \<open>b\<close> 5, \<open>B\<close> 6.
\<close>

datatype directive = Dir_d | Dir_m | Dir_Y | Dir_y | Dir_b | Dir_B | Dir_space

definition a_month :: "string list" where
  "a_month = [[], ''jan'', ''feb'', ''mar'', ''apr'', ''may'', ''jun'', ''jul'', ''aug'',
              ''sep'', ''oct'', ''nov'', ''dec'']"

definition f_month :: "string list" where
  "f_month = [[], ''january'', ''february'', ''march'', ''april'', ''may'', ''june'', ''july'',
              ''august'', ''september'', ''october'', ''november'', ''december'']"

text \<open>The alternatives of a list of names, in the order given.\<close>

fun alt_names :: "string list \<Rightarrow> regex" where
  "alt_names [] = Alt Eps Eps"
| "alt_names [w] = LitI w"
| "alt_names (w # v # ws) = Alt (LitI w) (alt_names (v # ws))"

definition nonzero_digit :: cclass where
  "nonzero_digit = OneOf ''123456789''"

text \<open>
  The patterns of the directives: \<open>%d\<close> is \<open>3[0-1]|[1-2]\d|0[1-9]|[1-9]| [1-9]\<close>, \<open>%m\<close> is
  \<open>1[0-2]|0[1-9]|[1-9]\<close>, \<open>%Y\<close> is \<open>\d\d\d\d\<close>, \<open>%y\<close> is \<open>\d\d\<close>, and \<open>%b\<close>, \<open>%B\<close> are the
  month names, the longest first (names of equal length in calendar order).
\<close>

fun directive_regex :: "directive \<Rightarrow> regex" where
  "directive_regex Dir_d =
     Grp 1 (Alt (Seq (Cls (OneOf ''3'')) (Cls (OneOf ''01'')))
           (Alt (Seq (Cls (OneOf ''12'')) (Cls Digit))
           (Alt (Seq (Cls (OneOf ''0'')) (Cls nonzero_digit))
           (Alt (Cls nonzero_digit)
                (Seq (Cls (OneOf '' '')) (Cls nonzero_digit))))))"
| "directive_regex Dir_m =
     Grp 2 (Alt (Seq (Cls (OneOf ''1'')) (Cls (OneOf ''012'')))
           (Alt (Seq (Cls (OneOf ''0'')) (Cls nonzero_digit))
                (Cls nonzero_digit)))"
| "directive_regex Dir_Y = Grp 3 (Rep Digit 4 (Some 4))"
| "directive_regex Dir_y = Grp 4 (Rep Digit 2 (Some 2))"
| "directive_regex Dir_b = Grp 5 (alt_names (tl a_month))"
| "directive_regex Dir_B =
     Grp 6 (alt_names [''september'', ''february'', ''november'', ''december'', ''january'',
                       ''october'', ''august'', ''march'', ''april'', ''june'', ''july'', ''may''])"
| "directive_regex Dir_space = Rep Space 1 None"

fun format_regex :: "directive list \<Rightarrow> regex" where
  "format_regex [] = Eps"
| "format_regex (d # ds) = Seq (directive_regex d) (format_regex ds)"

text \<open>\<open>xs.index(x)\<close>, counted from \<open>n\<close>; \<open>None\<close> when \<open>x\<close> is not in the list.\<close>

fun index_from :: "int \<Rightarrow> string list \<Rightarrow> string \<Rightarrow> int option" where
  "index_from n [] x = None"
| "index_from n (y # ys) x = (if y = x then Some n else index_from (n + 1) ys x)"

text \<open>The year, month and day from the groups of the match; the defaults are 1900, 1, 1.\<close>

definition parsed_year :: "directive list \<Rightarrow> caps \<Rightarrow> int" where
  "parsed_year fmt g =
     (if Dir_Y \<in> set fmt then int_of_digits (group g 3)
      else if Dir_y \<in> set fmt then
        (let y = int_of_digits (group g 4) in if y \<le> 68 then y + 2000 else y + 1900)
      else 1900)"

definition parsed_month :: "directive list \<Rightarrow> caps \<Rightarrow> int option" where
  "parsed_month fmt g =
     (if Dir_m \<in> set fmt then Some (int_of_digits (group g 2))
      else if Dir_B \<in> set fmt then index_from 0 f_month (lower (group g 6))
      else if Dir_b \<in> set fmt then index_from 0 a_month (lower (group g 5))
      else Some 1)"

definition parsed_day :: "directive list \<Rightarrow> caps \<Rightarrow> int" where
  "parsed_day fmt g = (if Dir_d \<in> set fmt then int_of_digits (group g 1) else 1)"

text \<open>\<open>datetime.strptime(s, fmt)\<close>; \<open>None\<close> is the \<open>ValueError\<close>.\<close>

definition strptime :: "string \<Rightarrow> directive list \<Rightarrow> pydate option" where
  "strptime s fmt =
     (case re_match (format_regex fmt) s of
        None \<Rightarrow> None
      | Some (whole, g) \<Rightarrow>
          if length s \<noteq> length whole then None
          else (case parsed_month fmt g of
                  None \<Rightarrow> None
                | Some m \<Rightarrow>
                    (let dt = Date (parsed_year fmt g) m (parsed_day fmt g) in
                     if valid_date dt then Some dt else None)))"

section \<open>The date normalizer\<close>

definition apostrophe :: char where
  "apostrophe = CHR 0x27"

text \<open>
  The ten formats, in the order tried: \<open>"%d %m %Y"\<close>, \<open>"%d %m %y"\<close>, \<open>"%m %d %Y"\<close>,
  \<open>"%m %d %y"\<close>, \<open>"%b %d %Y"\<close>, \<open>"%b %d %y"\<close>, \<open>"%B %d %Y"\<close>, \<open>"%B %d %y"\<close>, \<open>"%b%d %Y"\<close>,
  \<open>"%b%d%Y"\<close>.
\<close>

definition formats :: "directive list list" where
  "formats =
     [[Dir_d, Dir_space, Dir_m, Dir_space, Dir_Y], [Dir_d, Dir_space, Dir_m, Dir_space, Dir_y],
      [Dir_m, Dir_space, Dir_d, Dir_space, Dir_Y], [Dir_m, Dir_space, Dir_d, Dir_space, Dir_y],
      [Dir_b, Dir_space, Dir_d, Dir_space, Dir_Y], [Dir_b, Dir_space, Dir_d, Dir_space, Dir_y],
      [Dir_B, Dir_space, Dir_d, Dir_space, Dir_Y], [Dir_B, Dir_space, Dir_d, Dir_space, Dir_y],
      [Dir_b, Dir_d, Dir_space, Dir_Y], [Dir_b, Dir_d, Dir_Y]]"

text \<open>The loop over the formats: the first that parses, \<open>None\<close> when none does.\<close>

fun try_formats :: "string \<Rightarrow> directive list list \<Rightarrow> pydate option" where
  "try_formats clean_str [] = None"
| "try_formats clean_str (fmt # fmts) =
     (case strptime clean_str fmt of
        Some dt \<Rightarrow> Some dt
      | None \<Rightarrow> try_formats clean_str fmts)"

text \<open>
  The repairs: \<open>'(\d{2})\b\<close> becomes \<open>20\1\<close>, a remaining apostrophe becomes \<open>20\<close>,
  \<open>[^\w\s]\<close> becomes a space, \<open>\s+\<close> becomes one space, and the ends are stripped.
\<close>

definition repair :: "string \<Rightarrow> string" where
  "repair date_str =
     (let c1 = re_sub (Seq (Lit [apostrophe]) (Seq (Grp 1 (Rep Digit 2 (Some 2))) WordB))
                      (\<lambda>(whole, g). ''20'' @ group g 1) date_str;
          c2 = str_replace [apostrophe] ''20'' c1;
          c3 = re_sub (Cls (Compl (Union Word Space))) (\<lambda>m. '' '') c2;
          c4 = re_sub (Rep Space 1 None) (\<lambda>m. '' '') c3
      in strip c4)"

text \<open>
  The fallback: \<open>([a-zA-Z]{3})\s*(\d{1,2})\s*(\d{2,4})\<close> anywhere in the repaired text,
  parsed again as \<open>"%b %d %Y"\<close>. \<open>None\<close> is no match or any exception.
\<close>

definition fallback_regex :: regex where
  "fallback_regex =
     Seq (Grp 1 (Rep (Union Lower Upper) 3 (Some 3)))
    (Seq (Rep Space 0 None)
    (Seq (Grp 2 (Rep Digit 1 (Some 2)))
    (Seq (Rep Space 0 None)
         (Grp 3 (Rep Digit 2 (Some 4))))))"

definition fallback_parse :: "string \<Rightarrow> pydate option" where
  "fallback_parse clean_str =
     (case re_search fallback_regex clean_str of
        None \<Rightarrow> None
      | Some (whole, g) \<Rightarrow>
          (let m = group g 1; d = group g 2; y = group g 3;
               y' = (if length y = 2 then ''20'' @ y else y)
           in strptime (m @ '' '' @ d @ '' '' @ y')
                [Dir_b, Dir_space, Dir_d, Dir_space, Dir_Y]))"

text \<open>The parameter \<open>lang\<close> of \<open>normalize_date\<close> is not used by its body.\<close>

definition normalize_date :: "string \<Rightarrow> lang \<Rightarrow> string" where
  "normalize_date date_str l =
     (if date_str = [] \<or> date_str = ''null'' then date_str
      else (let clean_str = repair date_str in
            case try_formats clean_str formats of
              Some parsed_date \<Rightarrow> strftime_dmy parsed_date
            | None \<Rightarrow>
                (case fallback_parse clean_str of
                   Some date_obj \<Rightarrow> strftime_dmy date_obj
                 | None \<Rightarrow> date_str)))"

section \<open>Date extraction\<close>

text \<open>
  A date pattern is the regular expression together with the outcome of the test
  \<open>'Jan' in pat\<close> on its text. The numeric patterns are
  \<open>\b(\d{2}\s*[/-]\s*\d{2}\s*[/-]\s*\d{2,4})\b\<close> for IT and
  \<open>\b(\d{1,2}\s*[/-]\s*\d{1,2}\s*[/-]\s*\d{4})\<close>,
  \<open>\b(\d{1,2}\s*[/-]\s*\d{1,2}\s*[/-]\s*\d{2})\b\<close> for EN; the third EN pattern is
  \<open>(?i)(Jan|Feb|Mar|Apr|May|Jun|Jul|Aug|Sep|Oct|Nov|Dec)\s*(\d{1,2})[\s\.\,\']*(\d{2,4})\<close>.
\<close>

definition sep_part :: regex where
  "sep_part = Seq (Rep Space 0 None) (Seq (Cls (OneOf ''/-'')) (Rep Space 0 None))"

definition numeric_date :: "nat \<Rightarrow> nat \<Rightarrow> nat \<Rightarrow> nat \<Rightarrow> regex" where
  "numeric_date lo hi ylo yhi =
     Grp 1 (Seq (Rep Digit lo (Some hi)) (Seq sep_part (Seq (Rep Digit lo (Some hi))
           (Seq sep_part (Rep Digit ylo (Some yhi))))))"

definition month_name_date :: regex where
  "month_name_date =
     Seq (Grp 1 (alt_names [''Jan'', ''Feb'', ''Mar'', ''Apr'', ''May'', ''Jun'', ''Jul'', ''Aug'',
                            ''Sep'', ''Oct'', ''Nov'', ''Dec'']))
    (Seq (Rep Space 0 None)
    (Seq (Grp 2 (Rep Digit 1 (Some 2)))
    (Seq (Rep (Union Space (OneOf [CHR ''.'', CHR '','', apostrophe])) 0 None)
         (Grp 3 (Rep Digit 2 (Some 4))))))"

definition date_patterns :: "lang \<Rightarrow> (bool \<times> regex) list" where
  "date_patterns l = (case l of
      IT \<Rightarrow> [(False, Seq WordB (Seq (numeric_date 2 2 2 4) WordB))]
    | EN \<Rightarrow> [(False, Seq WordB (numeric_date 1 2 4 4)),
             (False, Seq WordB (Seq (numeric_date 1 2 2 2) WordB)),
             (True, month_name_date)])"

text \<open>
  The inner loop over the patterns for one line: the raw date of the first pattern that
  matches. \<open>None\<close> is \<open>date_found = False\<close>.
\<close>

fun match_patterns :: "lang \<Rightarrow> (bool \<times> regex) list \<Rightarrow> string \<Rightarrow> string option" where
  "match_patterns l [] line = None"
| "match_patterns l ((has_jan, pat) # pats) line =
     (case re_search pat line of
        Some (whole, g) \<Rightarrow>
          if l = EN \<and> has_jan then Some whole
          else Some (str_replace '' '' [] (group g 1))
      | None \<Rightarrow> match_patterns l pats line)"

text \<open>The outer loop over the lines, left at the first line with a match.\<close>

fun date_loop :: "lang \<Rightarrow> string list \<Rightarrow> string option" where
  "date_loop l [] = None"
| "date_loop l (line # rest) =
     (case match_patterns l (date_patterns l) line of
        Some raw_date \<Rightarrow> Some raw_date
      | None \<Rightarrow> date_loop l rest)"

text \<open>
  The field \<open>date\<close>. The first argument is the date \<open>datetime.now()\<close> returns when the
  function runs.
\<close>

definition extract_date :: "pydate \<Rightarrow> lang \<Rightarrow> string list \<Rightarrow> string" where
  "extract_date now l text_lines =
     (case date_loop l text_lines of
        Some raw_date \<Rightarrow>
          if raw_date \<noteq> [] then normalize_date raw_date l
          else ''('' @ strftime_dmy now @ '')''
      | None \<Rightarrow> ''('' @ strftime_dmy now @ '')'')"

section \<open>Location extraction\<close>

definition addr_keywords :: "lang \<Rightarrow> string list" where
  "addr_keywords l = (case l of
      IT \<Rightarrow> [''VIA '', ''VIALE '', ''PIAZZA '', ''CORSO '', ''C.SO '', ''VICOLO '', ''LARGO '',
             ''STRADA '', ''P.ZZA '', ''V. '']
    | EN \<Rightarrow> ['' AVE'', '' ST'', '' BLVD'', '' BL VD'', '' RD'', '' DRIVE'', '' LANE'',
             '' HIGHWAY'', '' PKWY'', '' WAY''])"

text \<open>
  The postal-code patterns \<open>\b\d{5}\b\<close> (IT) and \<open>\b(?:[A-Z]{2}\s*)?\d{5}\b\<close> (EN), and the
  locality patterns \<open>\s\(?([A-Z]{2})\)?$\<close> (IT) and \<open>\b[A-Z]{2}\s+\d{5}\<close> (EN).
\<close>

definition cap_pattern :: "lang \<Rightarrow> regex" where
  "cap_pattern l = (case l of
      IT \<Rightarrow> Seq WordB (Seq (Rep Digit 5 (Some 5)) WordB)
    | EN \<Rightarrow> Seq WordB (Seq (Alt (Seq (Rep Upper 2 (Some 2)) (Rep Space 0 None)) Eps)
                     (Seq (Rep Digit 5 (Some 5)) WordB)))"

definition prov_pattern :: "lang \<Rightarrow> regex" where
  "prov_pattern l = (case l of
      IT \<Rightarrow> Seq (Cls Space) (Seq (Rep (OneOf ''('') 0 (Some 1))
                (Seq (Grp 1 (Rep Upper 2 (Some 2))) (Seq (Rep (OneOf '')'') 0 (Some 1)) Eos)))
    | EN \<Rightarrow> Seq WordB (Seq (Rep Upper 2 (Some 2)) (Seq (Rep Space 1 None)
                (Rep Digit 5 (Some 5)))))"

definition bad_words :: "string list" where
  "bad_words = [''TEL'', ''FAX'', ''TAX'', ''VAT'', ''ORDER'', ''TABLE'', ''GUEST'', ''ID'', ''OP:'',
                ''CASSA:'', ''IBAN'', ''N.CARTA'', ''CARD'', ''ACCT'']"

text \<open>\<open>re.search(pat, s)\<close> used as a truth value.\<close>

definition matches :: "regex \<Rightarrow> string \<Rightarrow> bool" where
  "matches r s = (re_search r s \<noteq> None)"

text \<open>The loop that sets \<open>is_date_line\<close>.\<close>

fun is_date_line :: "(bool \<times> regex) list \<Rightarrow> string \<Rightarrow> bool" where
  "is_date_line [] line = False"
| "is_date_line ((has_jan, pat) # pats) line =
     (if matches pat line then True else is_date_line pats line)"

text \<open>The score of a line that is not a date line.\<close>

definition line_score :: "lang \<Rightarrow> string \<Rightarrow> int" where
  "line_score l line =
     (let clean = strip line; u = upper clean;
          s1 = (if any_in (addr_keywords l) u then 5 else 0);
          s2 = (if matches (cap_pattern l) clean then s1 + 6 else s1);
          s3 = (if matches (prov_pattern l) clean then s2 + 4 else s2)
      in if any_in bad_words u then s3 - 20 else s3)"

record scored_line =
  index :: nat
  line_text :: string
  score :: int

record candidate =
  ctext :: string
  cscore :: int

text \<open>The scoring loop; \<open>i\<close> is the index \<open>enumerate\<close> gives the head of the remaining lines.\<close>

fun score_loop :: "lang \<Rightarrow> nat \<Rightarrow> string list \<Rightarrow> scored_line list" where
  "score_loop l i [] = []"
| "score_loop l i (line # rest) =
     (if is_date_line (date_patterns l) line then score_loop l (i + 1) rest
      else if 0 < line_score l line
      then \<lparr>index = i, line_text = strip line, score = line_score l line\<rparr> # score_loop l (i + 1) rest
      else score_loop l (i + 1) rest)"

text \<open>
  The merge loop \<open>while i < len(scored_lines)\<close>, with the list \<open>final_candidates\<close> built so
  far as the last argument.
\<close>

function merge_loop :: "scored_line list \<Rightarrow> nat \<Rightarrow> candidate list \<Rightarrow> candidate list" where
  "merge_loop sl i final_candidates =
     (if i < length sl then
        (let curr = sl ! i in
         if i + 1 < length sl \<and> index (sl ! (i + 1)) = index curr + 1 then
           merge_loop sl (i + 2)
             (final_candidates @
                [\<lparr>ctext = line_text curr @ '' '' @ line_text (sl ! (i + 1)),
                  cscore = score curr + score (sl ! (i + 1)) + 5\<rparr>])
         else merge_loop sl (i + 1)
                (final_candidates @ [\<lparr>ctext = line_text curr, cscore = score curr\<rparr>]))
      else final_candidates)"
  by pat_completeness auto
termination
  by (relation "measure (\<lambda>(sl, i, fc). length sl - i)") auto

declare merge_loop.simps [simp del]

text \<open>\<open>max(final_candidates, key=...)\<close>: the first candidate with the largest score.\<close>

fun best_loop :: "candidate \<Rightarrow> candidate list \<Rightarrow> candidate" where
  "best_loop best [] = best"
| "best_loop best (c # cs) = best_loop (if cscore best < cscore c then c else best) cs"

definition final_candidates :: "lang \<Rightarrow> string list \<Rightarrow> candidate list" where
  "final_candidates l text_lines =
     (let scored_lines = score_loop l 0 text_lines in
      if scored_lines \<noteq> [] then merge_loop (sort_key index scored_lines) 0 [] else [])"

definition extract_location :: "lang \<Rightarrow> string list \<Rightarrow> string" where
  "extract_location l text_lines =
     (case final_candidates l text_lines of
        [] \<Rightarrow> ''null''
      | c # cs \<Rightarrow> ctext (best_loop c cs))"

section \<open>The receipt record and \<open>extract_info\<close>\<close>

record receipt =
  filename :: string
  vendor :: string
  location :: string
  date :: string
  total :: string
  currency :: string

text \<open>
  \<open>extract_info(text_lines, filename)\<close>. The first argument is the date that
  \<open>datetime.now()\<close> returns during the call.
\<close>

definition extract_info :: "pydate \<Rightarrow> string list \<Rightarrow> string \<Rightarrow> receipt" where
  "extract_info now text_lines fname =
     (if text_lines = [] then
        \<lparr>filename = fname, vendor = ''null'', location = ''null'', date = ''null'',
         total = ''null'', currency = ''null''\<rparr>
      else
        (let l = detect_language text_lines in
         \<lparr>filename = fname,
          vendor = extract_vendor l text_lines,
          location = extract_location l text_lines,
          date = extract_date now l text_lines,
          total = extract_total l text_lines,
          currency = detect_currency l text_lines\<rparr>))"

section \<open>Aggregation: \<open>save_all_to_excel\<close>\<close>







section \<open>The statements of the specification\<close>

text \<open>The markers of the two currencies in a line.\<close>

definition euro_marker :: "string \<Rightarrow> bool" where
  "euro_marker line = (contains [euro_sign] line \<or> contains ''EUR'' (upper line))"

definition dollar_marker :: "string \<Rightarrow> bool" where
  "dollar_marker line = (contains ''$'' line \<or> contains ''USD'' (upper line))"

text \<open>
  Currency detection as the specification words it: a Euro marker in any line decides
  for EUR, only then a Dollar marker in any line for USD, else the default of the locale.
\<close>

definition claimed_currency :: "lang \<Rightarrow> string list \<Rightarrow> string" where
  "claimed_currency l text_lines =
     (if \<exists>line\<in>set text_lines. euro_marker line then ''EUR''
      else if \<exists>line\<in>set text_lines. dollar_marker line then ''USD''
      else if l = IT then ''EUR'' else ''USD'')"

text \<open>
  The merge pass as the specification words it: walking the retained lines in order, a
  line whose index is one less than the index of the next is merged with it (texts
  joined by a space, scores added with a bonus of 5) and the walk goes on after both;
  any other line stands alone.
\<close>

fun merge_adjacent :: "scored_line list \<Rightarrow> candidate list" where
  "merge_adjacent [] = []"
| "merge_adjacent [a] = [\<lparr>ctext = line_text a, cscore = score a\<rparr>]"
| "merge_adjacent (a # b # rest) =
     (if index b = index a + 1
      then \<lparr>ctext = line_text a @ '' '' @ line_text b, cscore = score a + score b + 5\<rparr>
             # merge_adjacent rest
      else \<lparr>ctext = line_text a, cscore = score a\<rparr> # merge_adjacent (b # rest))"

text \<open>The lines the location extractor retains: not a date line, and a positive score.\<close>

definition retained :: "lang \<Rightarrow> string \<Rightarrow> bool" where
  "retained l line = (\<not> is_date_line (date_patterns l) line \<and> 0 < line_score l line)"

text \<open>The least number of characters that a match of a pattern consumes.\<close>

fun min_len :: "regex \<Rightarrow> nat" where
  "min_len Eps = 0"
| "min_len (Cls c) = 1"
| "min_len (Lit w) = length w"
| "min_len (LitI w) = length w"
| "min_len (Seq a b) = min_len a + min_len b"
| "min_len (Alt a b) = min (min_len a) (min_len b)"
| "min_len (Rep c mn mx) = mn"
| "min_len (Grp n a) = min_len a"
| "min_len WordB = 0"
| "min_len (NotAhead c) = 0"
| "min_len Eos = 0"

text \<open>
  The raw token of a line that matches a date pattern: the first pattern of the locale
  that matches decides; the token is the whole match for the month-name pattern and
  group 1 without its space characters otherwise.
\<close>

definition raw_token :: "lang \<Rightarrow> string \<Rightarrow> string" where
  "raw_token l line =
     (case find (\<lambda>p. matches (snd p) line) (date_patterns l) of
        None \<Rightarrow> []
      | Some (has_jan, pat) \<Rightarrow>
          (case re_search pat line of
             None \<Rightarrow> []
           | Some (whole, g) \<Rightarrow>
               if has_jan then whole else filter (\<lambda>c. c \<noteq> CHR '' '') (group g 1)))"

text \<open>
  The raw token as the specification words it: group 1 with its white space removed
  (any character of the class \<open>\s\<close>, which the patterns admit between the parts).
\<close>

definition claimed_raw_token :: "lang \<Rightarrow> string \<Rightarrow> string" where
  "claimed_raw_token l line =
     (case find (\<lambda>p. matches (snd p) line) (date_patterns l) of
        None \<Rightarrow> []
      | Some (has_jan, pat) \<Rightarrow>
          (case re_search pat line of
             None \<Rightarrow> []
           | Some (whole, g) \<Rightarrow>
               if has_jan then whole else filter (\<lambda>c. \<not> is_space c) (group g 1)))"

definition claimed_date :: "pydate \<Rightarrow> lang \<Rightarrow> string list \<Rightarrow> string" where
  "claimed_date now l text_lines =
     (case find (\<lambda>line. \<exists>p\<in>set (date_patterns l). matches (snd p) line) text_lines of
        None \<Rightarrow> ''('' @ strftime_dmy now @ '')''
      | Some line \<Rightarrow> normalize_date (claimed_raw_token l line) l)"











section \<open>Properties\<close>

lemmas char_simps = is_digit_def is_lower_def is_upper_def is_alpha_def is_space_def is_word_def
  upper_char_def lower_char_def upper_def lower_def lstrip_def strip_def

subsection \<open>Empty input\<close>

text \<open>
  Claim C10. On an empty line sequence \<open>extract_info\<close> returns the record that holds the
  file name it was given and the sentinel "null" in the five other fields, whatever the
  file name and the current date: neither the date of the day nor a default currency is
  filled in.
\<close>

theorem extract_info_empty:
  "extract_info now [] fname =
     \<lparr>filename = fname, vendor = ''null'', location = ''null'', date = ''null'',
      total = ''null'', currency = ''null''\<rparr>"
  by (simp add: extract_info_def)

subsection \<open>Vendor\<close>

lemma any_in_iff: "any_in ks t = (\<exists>k\<in>set ks. contains k t)"
  by (induction ks) auto

lemma vendor_suffix_loop_find:
  "vendor_suffix_loop l ls =
     find (\<lambda>c. 3 \<le> length c \<and> (\<exists>s\<in>set (suffixes l). contains s (upper c))) (map strip ls)"
  by (induction ls) (auto simp: any_in_iff Let_def)

lemma vendor_fallback_loop_find:
  "vendor_fallback_loop l ls =
     find (\<lambda>c. 3 \<le> length c \<and> (\<exists>ch\<in>set c. is_alpha ch) \<and>
                \<not> (\<exists>k\<in>set (skip_keywords l). contains k (upper c))) (map strip ls)"
  by (induction ls) (auto simp: any_in_iff Let_def list_ex_iff)

text \<open>
  Claim C7. The vendor is the first of the first eight lines that, trimmed, has at least
  three characters and holds a corporate suffix of the locale in its upper-case form.
  Only when there is none, it is the first of all lines that, trimmed, has at least three
  characters, has a letter, and holds no generic header keyword in its upper-case form.
  When that fails too, the vendor is "null".
\<close>

theorem vendor_two_passes:
  "extract_vendor l text_lines =
     (case find (\<lambda>c. 3 \<le> length c \<and> (\<exists>s\<in>set (suffixes l). contains s (upper c)))
             (map strip (take 8 text_lines)) of
        Some v \<Rightarrow> v
      | None \<Rightarrow>
          (case find (\<lambda>c. 3 \<le> length c \<and> (\<exists>ch\<in>set c. is_alpha ch) \<and>
                          \<not> (\<exists>k\<in>set (skip_keywords l). contains k (upper c)))
                  (map strip text_lines) of
             Some v \<Rightarrow> v
           | None \<Rightarrow> ''null''))"
  unfolding extract_vendor_def vendor_suffix_loop_find vendor_fallback_loop_find
  by (rule refl)

theorem vendor_two_passes_witness:
  "extract_vendor IT [''12'', '' Bar Roma SRL '', ''SCONTRINO''] = ''Bar Roma SRL''
   \<and> extract_vendor EN [''RECEIPT'', ''42'', ''Joe Diner''] = ''Joe Diner''
   \<and> extract_vendor EN [''RECEIPT'', ''42''] = ''null''"
  using vendor_two_passes [of IT "[''12'', '' Bar Roma SRL '', ''SCONTRINO'']"]
    vendor_two_passes [of EN "[''RECEIPT'', ''42'', ''Joe Diner'']"]
    vendor_two_passes [of EN "[''RECEIPT'', ''42'']"]
  by (simp add: char_simps suffixes_def skip_keywords_def)

subsection \<open>Currency\<close>

lemma currency_loop_find:
  "currency_loop ls =
     (case find (\<lambda>line. euro_marker line \<or> dollar_marker line) ls of
        None \<Rightarrow> ''null''
      | Some line \<Rightarrow> if euro_marker line then ''EUR'' else ''USD'')"
  by (induction ls) (auto simp: euro_marker_def dollar_marker_def)

text \<open>
  Claim C2, as the specification states it, fails: the lines are scanned once, and the
  first line that holds a marker of either currency decides. With a Dollar marker in the
  first line and a Euro marker in the second the currency is USD, where the claim says
  EUR.
\<close>

theorem currency_dollar_before_euro:
  "detect_currency IT [''$ 5.00'', ''EUR''] = ''USD''
   \<and> claimed_currency IT [''$ 5.00'', ''EUR''] = ''EUR''"
  by (simp add: detect_currency_def claimed_currency_def euro_marker_def dollar_marker_def
      euro_sign_def char_simps)

text \<open>
  Claim C2, amended. The currency is decided by the first line that holds a Euro marker
  (the Euro sign, or "EUR" in any case) or a Dollar marker (the Dollar sign, or "USD" in
  any case): EUR when that line holds a Euro marker, USD otherwise. When no line holds a
  marker the currency is the default of the locale, EUR for IT and USD for EN.
\<close>

theorem currency_first_marked_line:
  "detect_currency l text_lines =
     (case find (\<lambda>line. euro_marker line \<or> dollar_marker line) text_lines of
        None \<Rightarrow> if l = IT then ''EUR'' else ''USD''
      | Some line \<Rightarrow> if euro_marker line then ''EUR'' else ''USD'')"
  by (simp add: detect_currency_def currency_loop_find Let_def split: option.splits)

theorem currency_first_marked_line_witness:
  "detect_currency IT [''x'', ''$ 5.00'', ''EUR''] = ''USD''
   \<and> detect_currency EN [''x'', ''5.00 eur $''] = ''EUR''
   \<and> detect_currency EN [''x''] = ''USD''"
  using currency_first_marked_line [of IT "[''x'', ''$ 5.00'', ''EUR'']"]
    currency_first_marked_line [of EN "[''x'', ''5.00 eur $'']"]
    currency_first_marked_line [of EN "[''x'']"]
  by (simp add: euro_marker_def dollar_marker_def euro_sign_def char_simps)

subsection \<open>Total\<close>















subsection \<open>Location\<close>

lemma is_date_line_iff: "is_date_line pats line = (\<exists>p\<in>set pats. matches (snd p) line)"
  by (induction pats line rule: is_date_line.induct) auto

lemma line_score_sum:
  "line_score l line =
     (if any_in (addr_keywords l) (upper (strip line)) then 5 else 0)
     + (if matches (cap_pattern l) (strip line) then 6 else 0)
     + (if matches (prov_pattern l) (strip line) then 4 else 0)
     - (if any_in bad_words (upper (strip line)) then 20 else 0)"
  by (simp add: line_score_def Let_def)

lemma score_loop_from:
  "score_loop l i ls =
     map (\<lambda>j. \<lparr>index = i + j, line_text = strip (ls ! j), score = line_score l (ls ! j)\<rparr>)
         (filter (\<lambda>j. retained l (ls ! j)) [0..<length ls])"
proof (induction ls arbitrary: i)
  case Nil
  show ?case by simp
next
  case (Cons line rest)
  have upt: "[0..<length (line # rest)] = 0 # map Suc [0..<length rest]"
    by (simp add: upt_conv_Cons map_Suc_upt del: upt_Suc)
  show ?case
    unfolding upt using Cons.IH [of "Suc i"]
    by (simp add: retained_def filter_map comp_def)
qed

lemma score_loop_sorted: "sorted (map index (score_loop l i ls))"
proof -
  have "map index (score_loop l i ls) = map (\<lambda>j. i + j) (filter (\<lambda>j. retained l (ls ! j)) [0..<length ls])"
    by (simp add: score_loop_from comp_def)
  moreover have "sorted (map (\<lambda>j. i + j) (filter (\<lambda>j. retained l (ls ! j)) [0..<length ls]))"
  proof (rule sorted_filter)
    show "sorted (map ((+) i) [0..<length ls])"
      by (simp add: sorted_map sorted_wrt_iff_nth_less)
  qed
  ultimately show ?thesis by simp
qed


lemma merge_loop_adjacent:
  "i \<le> length sl \<Longrightarrow> merge_loop sl i fc = fc @ merge_adjacent (drop i sl)"
proof (induction sl i fc rule: merge_loop.induct)
  case (1 sl i fc)
  show ?case
  proof (cases "i < length sl")
    case False
    with "1.prems" show ?thesis
      by (subst merge_loop.simps) simp
  next
    case True
    note lt = this
    have d: "drop i sl = sl ! i # drop (Suc i) sl"
      using lt by (simp add: Cons_nth_drop_Suc)
    show ?thesis
    proof (cases "i + 1 < length sl \<and> index (sl ! (i + 1)) = index (sl ! i) + 1")
      case True
      then have d2: "drop (Suc i) sl = sl ! (Suc i) # drop (i + 2) sl"
        by (simp add: Cons_nth_drop_Suc)
      from True lt "1.IH"(1) [OF lt refl] show ?thesis
        by (simp add: merge_loop.simps [of sl i fc] d d2 Let_def)
    next
      case False
      from False lt "1.IH"(2) [OF lt refl] have
        ih: "merge_loop sl (i + 1) (fc @ [\<lparr>ctext = line_text (sl ! i), cscore = score (sl ! i)\<rparr>])
             = (fc @ [\<lparr>ctext = line_text (sl ! i), cscore = score (sl ! i)\<rparr>]) @ merge_adjacent (drop (i + 1) sl)"
        by simp
      show ?thesis
      proof (cases "drop (Suc i) sl")
        case Nil
        with False lt ih show ?thesis
          by (simp add: merge_loop.simps [of sl i fc] d Let_def)
      next
        case (Cons b rest)
        then have b: "b = sl ! (Suc i)" and lt2: "Suc i < length sl"
          by (metis nth_via_drop, metis drop_eq_Nil2 leI list.distinct(1))
        with False lt ih Cons show ?thesis
          by (simp add: merge_loop.simps [of sl i fc] d Let_def)
      qed
    qed
  qed
qed

lemma final_candidates_merge:
  "final_candidates l text_lines = merge_adjacent (score_loop l 0 text_lines)"
  using merge_loop_adjacent [of 0 "score_loop l 0 text_lines" "[]"]
  by (simp add: final_candidates_def Let_def sort_key_id_if_sorted score_loop_sorted)

lemma best_loop_first_max:
  "\<exists>pre post. b # cs = pre @ best_loop b cs # post
     \<and> (\<forall>c\<in>set pre. cscore c < cscore (best_loop b cs))
     \<and> (\<forall>c\<in>set post. cscore c \<le> cscore (best_loop b cs))"
proof (induction cs arbitrary: b)
  case Nil
  have "[b] = [] @ best_loop b [] # []" by simp
  then show ?case by force
next
  case (Cons c cs)
  show ?case
  proof (cases "cscore b < cscore c")
    case True
    then have bl: "best_loop b (c # cs) = best_loop c cs" by simp
    from Cons.IH [of c] obtain pre post where
      e: "c # cs = pre @ best_loop c cs # post"
      and p: "\<forall>x\<in>set pre. cscore x < cscore (best_loop c cs)"
      and q: "\<forall>x\<in>set post. cscore x \<le> cscore (best_loop c cs)"
      by blast
    have "cscore c \<le> cscore (best_loop c cs)"
    proof (cases pre)
      case Nil
      from e have "c # cs = best_loop c cs # post" unfolding Nil by (simp only: append.simps)
      then have "best_loop c cs = c" by (metis list.inject)
      then show ?thesis by simp
    next
      case (Cons x xs)
      from e have "c # cs = x # xs @ best_loop c cs # post"
        unfolding Cons by (simp only: append.simps)
      then have "x = c" by (metis list.inject)
      with p Cons show ?thesis by simp
    qed
    with True have lt: "cscore b < cscore (best_loop c cs)" by simp
    show ?thesis unfolding bl
    proof (intro exI conjI)
      show "b # c # cs = (b # pre) @ best_loop c cs # post"
        by (simp only: e append.simps)
      show "\<forall>x\<in>set (b # pre). cscore x < cscore (best_loop c cs)"
        using p lt by simp
      show "\<forall>x\<in>set post. cscore x \<le> cscore (best_loop c cs)"
        by (rule q)
    qed
  next
    case False
    then have bl: "best_loop b (c # cs) = best_loop b cs" by simp
    from Cons.IH [of b] obtain pre post where
      e: "b # cs = pre @ best_loop b cs # post"
      and p: "\<forall>x\<in>set pre. cscore x < cscore (best_loop b cs)"
      and q: "\<forall>x\<in>set post. cscore x \<le> cscore (best_loop b cs)"
      by blast
    show ?thesis
    proof (cases pre)
      case Nil
      from e have "b # cs = best_loop b cs # post" unfolding Nil by (simp only: append.simps)
      then have m: "best_loop b cs = b" and cs: "cs = post" by (metis list.inject)+
      show ?thesis unfolding bl
      proof (intro exI conjI)
        show "b # c # cs = [] @ best_loop b cs # (c # post)"
          unfolding m using cs by simp
        show "\<forall>x\<in>set []. cscore x < cscore (best_loop b cs)" by simp
        show "\<forall>x\<in>set (c # post). cscore x \<le> cscore (best_loop b cs)"
          using q False m by simp
      qed
    next
      case (Cons x xs)
      from e have "b # cs = x # xs @ best_loop b cs # post"
        unfolding Cons by (simp only: append.simps)
      then have x: "x = b" and cs: "cs = xs @ best_loop b cs # post" by (metis list.inject)+
      from p Cons x have "cscore b < cscore (best_loop b cs)" by simp
      with False have lt: "cscore c < cscore (best_loop b cs)" by simp
      show ?thesis unfolding bl
      proof (intro exI conjI)
        show "b # c # cs = (b # c # xs) @ best_loop b cs # post"
          using cs by (metis append_Cons)
        show "\<forall>x\<in>set (b # c # xs). cscore x < cscore (best_loop b cs)"
          using p lt Cons x by simp
        show "\<forall>x\<in>set post. cscore x \<le> cscore (best_loop b cs)"
          by (rule q)
      qed
    qed
  qed
qed


lemma merge_adjacent_Nil_iff: "merge_adjacent sl = [] \<longleftrightarrow> sl = []"
  by (induction sl rule: merge_adjacent.induct) auto

text \<open>
  Claim C6. A line that matches no date pattern is scored +5 for an address keyword, +6
  for the postal-code pattern, +4 for the locality pattern and -20 for a disqualifying
  token; the lines with a positive score are retained in their order, with their
  indices. The candidates are the merge pass over the retained lines: a line is merged
  with the next exactly when their indices are consecutive, and the walk goes on after
  both. The location is "null" when no line is retained; otherwise it is the text of the
  first candidate with the largest score: every candidate before it scores strictly
  less, every candidate after it at most as much.
\<close>

theorem location_score_merge_best:
  "line_score l line =
     (if any_in (addr_keywords l) (upper (strip line)) then 5 else 0)
     + (if matches (cap_pattern l) (strip line) then 6 else 0)
     + (if matches (prov_pattern l) (strip line) then 4 else 0)
     - (if any_in bad_words (upper (strip line)) then 20 else 0)
   \<and> score_loop l 0 text_lines =
       map (\<lambda>i. \<lparr>index = i, line_text = strip (text_lines ! i),
                  score = line_score l (text_lines ! i)\<rparr>)
           (filter (\<lambda>i. \<not> (\<exists>p\<in>set (date_patterns l). matches (snd p) (text_lines ! i))
                         \<and> 0 < line_score l (text_lines ! i))
                   [0..<length text_lines])
   \<and> final_candidates l text_lines = merge_adjacent (score_loop l 0 text_lines)
   \<and> (score_loop l 0 text_lines = [] \<longrightarrow> extract_location l text_lines = ''null'')
   \<and> (score_loop l 0 text_lines \<noteq> [] \<longrightarrow>
        (\<exists>pre best post.
           final_candidates l text_lines = pre @ best # post
           \<and> extract_location l text_lines = ctext best
           \<and> (\<forall>c\<in>set pre. cscore c < cscore best)
           \<and> (\<forall>c\<in>set post. cscore c \<le> cscore best)))"
proof (intro conjI impI)
  show "line_score l line =
     (if any_in (addr_keywords l) (upper (strip line)) then 5 else 0)
     + (if matches (cap_pattern l) (strip line) then 6 else 0)
     + (if matches (prov_pattern l) (strip line) then 4 else 0)
     - (if any_in bad_words (upper (strip line)) then 20 else 0)"
    by (rule line_score_sum)
  show "score_loop l 0 text_lines =
       map (\<lambda>i. \<lparr>index = i, line_text = strip (text_lines ! i),
                  score = line_score l (text_lines ! i)\<rparr>)
           (filter (\<lambda>i. \<not> (\<exists>p\<in>set (date_patterns l). matches (snd p) (text_lines ! i))
                         \<and> 0 < line_score l (text_lines ! i))
                   [0..<length text_lines])"
    using score_loop_from [of l 0 text_lines]
    by (simp add: retained_def is_date_line_iff)
  show "final_candidates l text_lines = merge_adjacent (score_loop l 0 text_lines)"
    by (rule final_candidates_merge)
  show "extract_location l text_lines = ''null''" if "score_loop l 0 text_lines = []"
    using that by (simp add: extract_location_def final_candidates_merge)
  show "\<exists>pre best post.
           final_candidates l text_lines = pre @ best # post
           \<and> extract_location l text_lines = ctext best
           \<and> (\<forall>c\<in>set pre. cscore c < cscore best)
           \<and> (\<forall>c\<in>set post. cscore c \<le> cscore best)"
    if "score_loop l 0 text_lines \<noteq> []"
  proof -
    from that obtain c cs where fc: "final_candidates l text_lines = c # cs"
      by (cases "final_candidates l text_lines")
         (simp_all add: final_candidates_merge merge_adjacent_Nil_iff)
    from best_loop_first_max [of c cs] obtain pre post where
      "c # cs = pre @ best_loop c cs # post"
      "\<forall>x\<in>set pre. cscore x < cscore (best_loop c cs)"
      "\<forall>x\<in>set post. cscore x \<le> cscore (best_loop c cs)"
      by blast
    moreover have "extract_location l text_lines = ctext (best_loop c cs)"
      by (simp add: extract_location_def fc)
    ultimately show ?thesis
      unfolding fc by blast
  qed
qed

lemma location_example:
  "score_loop IT 0 [''Bar'', ''VIA ROMA 10'', ''20100 MILANO (MI)''] =
     [\<lparr>index = 1, line_text = ''VIA ROMA 10'', score = 5\<rparr>,
      \<lparr>index = 2, line_text = ''20100 MILANO (MI)'', score = 10\<rparr>]"
  "extract_location IT [''Bar'', ''VIA ROMA 10'', ''20100 MILANO (MI)''] = ''VIA ROMA 10 20100 MILANO (MI)''"
  by code_simp+

theorem location_score_merge_best_witness:
  "score_loop IT 0 [''Bar'', ''VIA ROMA 10'', ''20100 MILANO (MI)''] \<noteq> []
   \<and> final_candidates IT [''Bar'', ''VIA ROMA 10'', ''20100 MILANO (MI)''] =
       [\<lparr>ctext = ''VIA ROMA 10 20100 MILANO (MI)'', cscore = 20\<rparr>]
   \<and> extract_location IT [''Bar'', ''VIA ROMA 10'', ''20100 MILANO (MI)''] = ''VIA ROMA 10 20100 MILANO (MI)''"
proof -
  have fc: "final_candidates IT [''Bar'', ''VIA ROMA 10'', ''20100 MILANO (MI)''] =
            merge_adjacent (score_loop IT 0 [''Bar'', ''VIA ROMA 10'', ''20100 MILANO (MI)''])"
    by (rule location_score_merge_best [of IT "[]" "[''Bar'', ''VIA ROMA 10'',
          ''20100 MILANO (MI)'']", THEN conjunct2, THEN conjunct2, THEN conjunct1])
  show ?thesis
    unfolding fc location_example by simp
qed

subsection \<open>Date extraction and the clock\<close>

lemma rep_min: "(p', s') \<in> set (rep c mn mx p s) \<Longrightarrow> length s' + mn \<le> length s"
proof (induction s arbitrary: mn mx p)
  case Nil
  then show ?case by (simp split: if_splits)
next
  case (Cons x xs)
  from Cons.prems consider
    (a) "(p', s') \<in> set (rep c (mn - 1) (map_option (\<lambda>k. k - 1) mx) (Some x) xs)"
    | (b) "mn = 0" "s' = x # xs"
    by (auto split: if_splits)
  then show ?case
  proof cases
    case a
    from Cons.IH [OF a] show ?thesis by simp
  next
    case b
    then show ?thesis by simp
  qed
qed

lemma rep_first:
  "0 < mn \<Longrightarrow> (p', s') \<in> set (rep c mn mx p s) \<Longrightarrow> \<exists>x xs. s = x # xs \<and> in_class c x"
  by (cases s) (auto split: if_splits)

lemma lit_length: "(p', s') \<in> set (lit f w p s) \<Longrightarrow> length s' + length w = length s"
  by (induction f w p s rule: lit.induct) (auto split: if_splits)

lemma rmatch_min_len:
  "(p', s', g') \<in> set (rmatch r (p, s, g)) \<Longrightarrow> length s' + min_len r \<le> length s"
proof (induction r arbitrary: p s g p' s' g')
  case (Seq a b)
  from Seq.prems obtain p1 s1 g1 where
    1: "(p1, s1, g1) \<in> set (rmatch a (p, s, g))" and 2: "(p', s', g') \<in> set (rmatch b (p1, s1, g1))"
    by auto
  from Seq.IH(1) [OF 1] Seq.IH(2) [OF 2] show ?case by simp
next
  case (Alt a b)
  then show ?case by (auto dest!: Alt.IH)
next
  case (Rep c mn mx)
  then show ?case by (auto dest: rep_min)
next
  case (Grp n a)
  then show ?case by (auto dest!: Grp.IH)
next
  case (Lit w)
  then show ?case by (auto dest: lit_length)
next
  case (LitI w)
  then show ?case by (auto dest: lit_length)
qed (auto split: list.splits if_splits)

lemma search_from_Some:
  "search_from r p s = Some (whole, g) \<Longrightarrow>
     \<exists>p0 s0 p' s' ms. rmatch r (p0, s0, []) = (p', s', g) # ms
        \<and> whole = take (length s0 - length s') s0"
proof (induction s arbitrary: p)
  case Nil
  then obtain p' s' ms where "rmatch r (p, [], []) = (p', s', g) # ms" "whole = []"
    by (auto split: list.splits)
  then have "rmatch r (p, [], []) = (p', s', g) # ms \<and> whole = take (length ([]::string) - length s') []"
    by simp
  then show ?case by blast
next
  case (Cons x xs)
  show ?case
  proof (cases "rmatch r (p, x # xs, [])")
    case Nil
    with Cons.prems have "search_from r (Some x) xs = Some (whole, g)" by simp
    from Cons.IH [OF this] show ?thesis .
  next
    case (Cons m ms)
    obtain p' s' g' where m: "m = (p', s', g')" by (cases m)
    from Cons.prems Cons m have "whole = take (length (x # xs) - length s') (x # xs)" "g' = g"
      by simp_all
    with Cons m show ?thesis by blast
  qed
qed

lemma numeric_date_token:
  assumes "(p', s', g') \<in> set (rmatch (numeric_date lo hi ylo yhi) (p, s, g))" and "0 < lo"
  shows "\<exists>x t. group g' 1 = x # t \<and> is_digit x"
proof -
  let ?A = "Seq (Rep Digit lo (Some hi)) (Seq sep_part (Seq (Rep Digit lo (Some hi))
           (Seq sep_part (Rep Digit ylo (Some yhi)))))"
  from assms(1) obtain g1 where
    in_a: "(p', s', g1) \<in> set (rmatch ?A (p, s, g))"
    and g': "g' = (1, take (length s - length s') s) # g1"
    unfolding numeric_date_def rmatch.simps(8) by (auto simp del: rmatch.simps)
  from rmatch_min_len [OF in_a] assms(2) have lt: "length s' < length s"
    by simp
  from in_a obtain p1 s1 where "(p1, s1) \<in> set (rep Digit lo (Some hi) p s)"
    unfolding rmatch.simps(5) [of "Rep Digit lo (Some hi)"] rmatch.simps(7)
    by (auto simp del: rmatch.simps)
  from rep_first [OF assms(2) this] obtain x xs where s: "s = x # xs" and d: "in_class Digit x"
    by blast
  from lt s have "take (length s - length s') s = x # take (length xs - length s') xs"
    by (simp add: take_Cons' Suc_diff_le)
  with g' d show ?thesis
    by (simp add: group_def)
qed

lemma date_pattern_token:
  assumes "(hj, pat) \<in> set (date_patterns l)"
    and "(p', s', g') \<in> set (rmatch pat (p, s, g))"
  shows "length s' < length s \<and> (\<not> hj \<longrightarrow> (\<exists>x t. group g' 1 = x # t \<and> is_digit x))"
proof -
  from rmatch_min_len [OF assms(2)] assms(1) have "length s' < length s"
    by (cases l) (auto simp: date_patterns_def numeric_date_def month_name_date_def sep_part_def)
  moreover have "\<exists>x t. group g' 1 = x # t \<and> is_digit x" if "\<not> hj"
  proof -
    from assms(1) that consider
      (a) "pat = Seq WordB (Seq (numeric_date 2 2 2 4) WordB)"
      | (b) "pat = Seq WordB (numeric_date 1 2 4 4)"
      | (c) "pat = Seq WordB (Seq (numeric_date 1 2 2 2) WordB)"
      by (cases l) (auto simp: date_patterns_def)
    then show ?thesis
    proof cases
      case a
      with assms(2) obtain p1 s1 where
        "(p', s', g') \<in> set (rmatch (numeric_date 2 2 2 4) (p1, s1, g))"
        by (auto split: if_splits)
      from numeric_date_token [OF this] show ?thesis by simp
    next
      case b
      with assms(2) obtain p1 s1 where
        "(p', s', g') \<in> set (rmatch (numeric_date 1 2 4 4) (p1, s1, g))"
        by (auto split: if_splits)
      from numeric_date_token [OF this] show ?thesis by simp
    next
      case c
      with assms(2) obtain p1 s1 where
        "(p', s', g') \<in> set (rmatch (numeric_date 1 2 2 2) (p1, s1, g))"
        by (auto split: if_splits)
      from numeric_date_token [OF this] show ?thesis by simp
    qed
  qed
  ultimately show ?thesis by blast
qed


lemma find_SomeD: "find P xs = Some x \<Longrightarrow> P x \<and> x \<in> set xs"
  by (induction xs) (auto split: if_splits)

lemma sub_loop_delete_char:
  "sub_loop (Lit [c]) (\<lambda>m. []) 0 p t = filter (\<lambda>x. x \<noteq> c) t"
  by (induction t arbitrary: p) auto

lemma str_replace_delete_char: "str_replace [c] [] t = filter (\<lambda>x. x \<noteq> c) t"
  by (simp add: str_replace_def re_sub_def sub_loop_delete_char)

lemma has_jan_EN: "(True, pat) \<in> set (date_patterns l) \<Longrightarrow> l = EN"
  by (cases l) (auto simp: date_patterns_def)

lemma match_patterns_find:
  "match_patterns l pats line =
     (case find (\<lambda>p. matches (snd p) line) pats of
        None \<Rightarrow> None
      | Some (has_jan, pat) \<Rightarrow>
          (case re_search pat line of
             None \<Rightarrow> None
           | Some (whole, g) \<Rightarrow>
               if l = EN \<and> has_jan then Some whole
               else Some (filter (\<lambda>c. c \<noteq> CHR '' '') (group g 1))))"
  by (induction l pats line rule: match_patterns.induct)
     (auto simp: matches_def str_replace_delete_char split: option.splits)

lemma match_patterns_raw_token:
  "match_patterns l (date_patterns l) line =
     (if \<exists>p\<in>set (date_patterns l). matches (snd p) line then Some (raw_token l line) else None)"
proof (cases "find (\<lambda>p. matches (snd p) line) (date_patterns l)")
  case None
  then have "\<not> (\<exists>p\<in>set (date_patterns l). matches (snd p) line)"
    by (auto simp: find_None_iff)
  then show ?thesis
    unfolding match_patterns_find None by simp
next
  case (Some hp)
  obtain hj pat where hp: "hp = (hj, pat)" by (cases hp)
  from find_SomeD [OF Some] hp have
    mem: "(hj, pat) \<in> set (date_patterns l)" and m: "matches pat line"
    by simp_all
  from mem have en: "hj \<Longrightarrow> l = EN" by (auto dest: has_jan_EN)
  from mem m have ex: "\<exists>p\<in>set (date_patterns l). matches (snd p) line"
    by force
  from m obtain whole g where rs: "re_search pat line = Some (whole, g)"
    by (auto simp: matches_def)
  show ?thesis
    unfolding match_patterns_find raw_token_def Some hp using ex en rs
    by auto
qed

lemma raw_token_nonempty:
  assumes "\<exists>p\<in>set (date_patterns l). matches (snd p) line"
  shows "raw_token l line \<noteq> []"
proof -
  from assms obtain hp where f: "find (\<lambda>p. matches (snd p) line) (date_patterns l) = Some hp"
    by (cases "find (\<lambda>p. matches (snd p) line) (date_patterns l)") (auto simp: find_None_iff)
  obtain hj pat where hp: "hp = (hj, pat)" by (cases hp)
  from find_SomeD [OF f] hp have
    mem: "(hj, pat) \<in> set (date_patterns l)" and m: "matches pat line"
    by simp_all
  from m obtain whole g where rs: "re_search pat line = Some (whole, g)"
    by (auto simp: matches_def)
  from search_from_Some [OF rs [unfolded re_search_def]] obtain p0 s0 p' s' ms where
    rm: "rmatch pat (p0, s0, []) = (p', s', g) # ms"
    and whole: "whole = take (length s0 - length s') s0"
    by blast
  from rm have "(p', s', g) \<in> set (rmatch pat (p0, s0, []))" by simp
  from date_pattern_token [OF mem this] have
    lt: "length s' < length s0" and tok: "\<not> hj \<Longrightarrow> \<exists>x t. group g 1 = x # t \<and> is_digit x"
    by blast+
  show ?thesis
  proof (cases hj)
    case True
    from lt whole have "whole \<noteq> []" by (cases s0) auto
    with True f hp rs show ?thesis by (simp add: raw_token_def)
  next
    case False
    from tok [OF False] obtain x t where g: "group g 1 = x # t" and d: "is_digit x" by blast
    from d have "x \<noteq> CHR '' ''" by (auto simp: is_digit_def)
    with False f hp rs g show ?thesis by (simp add: raw_token_def)
  qed
qed

lemma date_loop_find:
  "date_loop l ls =
     (case find (\<lambda>line. \<exists>p\<in>set (date_patterns l). matches (snd p) line) ls of
        None \<Rightarrow> None
      | Some line \<Rightarrow> Some (raw_token l line))"
  by (induction ls) (auto simp: match_patterns_raw_token)

text \<open>
  The date extractor in closed form: the first line that a date pattern of the locale
  matches decides, through its raw token and the normalizer; without such a line the
  date is the current date in parentheses.
\<close>

lemma date_first_match:
  "extract_date now l text_lines =
     (case find (\<lambda>line. \<exists>p\<in>set (date_patterns l). matches (snd p) line) text_lines of
        None \<Rightarrow> ''('' @ strftime_dmy now @ '')''
      | Some line \<Rightarrow> normalize_date (raw_token l line) l)"
proof (cases "find (\<lambda>line. \<exists>p\<in>set (date_patterns l). matches (snd p) line) text_lines")
  case None
  then show ?thesis by (simp add: extract_date_def date_loop_find)
next
  case (Some line)
  from find_SomeD [OF this] have "\<exists>p\<in>set (date_patterns l). matches (snd p) line"
    by simp
  from raw_token_nonempty [OF this] Some show ?thesis
    by (simp add: extract_date_def date_loop_find)
qed

text \<open>
  Claim C5 holds of the design and fails on the code at one point. The patterns admit
  any white space between the parts of a date, and the normalizer treats all white space
  alike, but the token is built with \<open>replace(" ", "")\<close>, which removes the space
  character only. On the single line made of \<open>99/\<close>, a tab and \<open>99/99\<close> the token keeps
  the tab; the normalizer cannot parse it and returns it unchanged, so the field \<open>date\<close>
  of the record holds the tab, where the token of the claim, with its white space
  removed, gives \<open>99/99/99\<close>.
\<close>

theorem date_tab_kept:
  "date (extract_info (Date 2026 11 4)
           [[CHR ''9'', CHR ''9'', CHR ''/'', CHR 0x09, CHR ''9'', CHR ''9'', CHR ''/'', CHR ''9'',
             CHR ''9'']] ''a.jpg'')
     = [CHR ''9'', CHR ''9'', CHR ''/'', CHR 0x09, CHR ''9'', CHR ''9'', CHR ''/'', CHR ''9'', CHR ''9'']
   \<and> claimed_date (Date 2026 11 4)
         (detect_language [[CHR ''9'', CHR ''9'', CHR ''/'', CHR 0x09, CHR ''9'', CHR ''9'', CHR ''/'',
                            CHR ''9'', CHR ''9'']])
         [[CHR ''9'', CHR ''9'', CHR ''/'', CHR 0x09, CHR ''9'', CHR ''9'', CHR ''/'', CHR ''9'',
           CHR ''9'']]
     = ''99/99/99''"
  by code_simp

text \<open>
  Claim C3, amended. The record is a function of the lines, the file name and the
  current date. The current date reaches the field \<open>date\<close> only: all other fields are the
  same whatever the clock reads. The whole record is independent of the clock when the
  line sequence is empty or some line matches a date pattern of the detected locale.
\<close>

theorem extract_info_clock:
  "extract_info now text_lines fname =
     (extract_info now' text_lines fname)\<lparr>date := date (extract_info now text_lines fname)\<rparr>
   \<and> (text_lines = []
        \<or> (\<exists>line\<in>set text_lines.
              \<exists>p\<in>set (date_patterns (detect_language text_lines)). matches (snd p) line)
       \<longrightarrow> extract_info now text_lines fname = extract_info now' text_lines fname)"
proof -
  have "extract_date now l text_lines = extract_date now' l text_lines"
    if "\<exists>line\<in>set text_lines. \<exists>p\<in>set (date_patterns l). matches (snd p) line" for l
  proof -
    from that have "find (\<lambda>line. \<exists>p\<in>set (date_patterns l). matches (snd p) line) text_lines \<noteq> None"
      by (auto simp: find_None_iff)
    then show ?thesis by (auto simp: date_first_match)
  qed
  then show ?thesis
    by (auto simp: extract_info_def Let_def)
qed

text \<open>
  Claim C3, as the specification states it, fails: when no line matches a date pattern
  the field \<open>date\<close> is the date of the day, so the same lines and file name give
  different records on different days.
\<close>

lemma clock_examples:
  "date (extract_info (Date 2026 11 4) [''Bar''] ''a.jpg'') = ''(04/11/2026)''"
  "date (extract_info (Date 2026 11 5) [''Bar''] ''a.jpg'') = ''(05/11/2026)''"
  by code_simp+

theorem extract_info_depends_on_clock:
  "extract_info (Date 2026 11 4) [''Bar''] ''a.jpg'' \<noteq> extract_info (Date 2026 11 5) [''Bar''] ''a.jpg''"
proof
  assume "extract_info (Date 2026 11 4) [''Bar''] ''a.jpg'' = extract_info (Date 2026 11 5) [''Bar''] ''a.jpg''"
  then have "date (extract_info (Date 2026 11 4) [''Bar''] ''a.jpg'')
             = date (extract_info (Date 2026 11 5) [''Bar''] ''a.jpg'')"
    by (rule arg_cong)
  then show False unfolding clock_examples by simp
qed

lemma clock_witness_match:
  "matches (snd (False, Seq WordB (Seq (numeric_date 2 2 2 4) WordB))) ''23/05/23''"
  "detect_language [''23/05/23''] = IT"
  by code_simp+

theorem extract_info_clock_witness:
  "extract_info (Date 2026 11 4) [''23/05/23''] ''a.jpg''
     = extract_info (Date 2026 11 5) [''23/05/23''] ''a.jpg''"
proof -
  have "\<exists>line\<in>set [''23/05/23''].
          \<exists>p\<in>set (date_patterns (detect_language [''23/05/23''])). matches (snd p) line"
    using clock_witness_match by (simp add: date_patterns_def)
  with extract_info_clock [of "Date 2026 11 4" "[''23/05/23'']" "''a.jpg''" "Date 2026 11 5"]
  show ?thesis by blast
qed

subsection \<open>Aggregation\<close>







subsection \<open>The date normalizer on canonical dates\<close>

































subsection \<open>The shape of the record\<close>



























end
